theory Spec2Isabelle
  imports Complex_Main
begin

section \<open>Conventions of the embedding\<close>

text \<open>
  The notebooks are Python. A text or a label is a Python \<^verbatim>\<open>str\<close>, modelled as a
  \<^typ>\<open>string\<close> whose elements are the characters of the text (the corpus is ASCII
  prose), so that \<^term>\<open>length\<close> is Python's \<^verbatim>\<open>len\<close>.

  A Python \<^verbatim>\<open>float\<close> and a numpy \<^verbatim>\<open>float64\<close> are modelled by exact rationals:
  the counts the code handles are small integers, which binary floating point represents
  exactly, and the rounding of a quotient is not modelled. What is modelled is what a
  division by zero does, which differs between the two: a Python \<^verbatim>\<open>float\<close> raises
  \<^verbatim>\<open>ZeroDivisionError\<close>, a numpy \<^verbatim>\<open>float64\<close> returns a special value and only
  emits a warning.
\<close>

datatype error = ZeroDivisionError | ValueError

text \<open>Python's \<^verbatim>\<open>a / b\<close> on two \<^verbatim>\<open>float\<close> values.\<close>

definition py_div :: "rat \<Rightarrow> rat \<Rightarrow> error + rat" where
  "py_div a b = (if b = 0 then Inl ZeroDivisionError else Inr (a / b))"

section \<open>Evaluation metrics (02-evaluating-models)\<close>

subsection \<open>The three counts of \<^verbatim>\<open>f1_score\<close> and \<^verbatim>\<open>fbeta_score\<close>\<close>

text \<open>
  \<^verbatim>\<open>actual_positives = float(len([v for v in actual_values if v == positive_label]))\<close>
\<close>

definition actual_positives :: "string list \<Rightarrow> string \<Rightarrow> rat" where
  "actual_positives actual_values positive_label =
     of_nat (length (filter (\<lambda>v. v = positive_label) actual_values))"

text \<open>
  \<^verbatim>\<open>true_positives = float(len([t for t in zip(actual_values, predicted_values)
                               if t[0] == t[1] == positive_label]))\<close>
  The chained comparison is \<^verbatim>\<open>t[0] == t[1] and t[1] == positive_label\<close>; \<^verbatim>\<open>zip\<close>
  stops at the shorter sequence, as \<^term>\<open>zip\<close> does.
\<close>

definition true_positives :: "string list \<Rightarrow> string list \<Rightarrow> string \<Rightarrow> rat" where
  "true_positives actual_values predicted_values positive_label =
     of_nat (length (filter (\<lambda>t. fst t = snd t \<and> snd t = positive_label)
                            (zip actual_values predicted_values)))"

text \<open>
  \<^verbatim>\<open>predicted_positives = float(len([v for v in predicted_values if v == positive_label]))\<close>
\<close>

definition predicted_positives :: "string list \<Rightarrow> string \<Rightarrow> rat" where
  "predicted_positives predicted_values positive_label =
     of_nat (length (filter (\<lambda>v. v = positive_label) predicted_values))"

text \<open>
  \<^verbatim>\<open>precision = true_positives / predicted_positives\<close> and
  \<^verbatim>\<open>recall = true_positives / actual_positives\<close>, the two local quotients that both
  score functions compute first, in this order.
\<close>

definition precision :: "string list \<Rightarrow> string list \<Rightarrow> string \<Rightarrow> error + rat" where
  "precision actual_values predicted_values positive_label =
     py_div (true_positives actual_values predicted_values positive_label)
            (predicted_positives predicted_values positive_label)"

definition recall :: "string list \<Rightarrow> string list \<Rightarrow> string \<Rightarrow> error + rat" where
  "recall actual_values predicted_values positive_label =
     py_div (true_positives actual_values predicted_values positive_label)
            (actual_positives actual_values positive_label)"

text \<open>
  \<^verbatim>\<open>return 2 * ((precision * recall) / (precision + recall))\<close>
\<close>

definition f1_score :: "string list \<Rightarrow> string list \<Rightarrow> string \<Rightarrow> error + rat" where
  "f1_score actual_values predicted_values positive_label =
     (case precision actual_values predicted_values positive_label of
        Inl e \<Rightarrow> Inl e
      | Inr p \<Rightarrow>
          (case recall actual_values predicted_values positive_label of
             Inl e \<Rightarrow> Inl e
           | Inr r \<Rightarrow>
               (case py_div (p * r) (p + r) of
                  Inl e \<Rightarrow> Inl e
                | Inr q \<Rightarrow> Inr (2 * q))))"

text \<open>
  \<^verbatim>\<open>return (1 + (beta * beta)) * ((precision * recall) / (((beta * beta) * precision) + recall))\<close>
\<close>

definition fbeta_score :: "string list \<Rightarrow> string list \<Rightarrow> rat \<Rightarrow> string \<Rightarrow> error + rat" where
  "fbeta_score actual_values predicted_values beta positive_label =
     (case precision actual_values predicted_values positive_label of
        Inl e \<Rightarrow> Inl e
      | Inr p \<Rightarrow>
          (case recall actual_values predicted_values positive_label of
             Inl e \<Rightarrow> Inl e
           | Inr r \<Rightarrow>
               (case py_div (p * r) (((beta * beta) * p) + r) of
                  Inl e \<Rightarrow> Inl e
                | Inr q \<Rightarrow> Inr ((1 + (beta * beta)) * q))))"

subsection \<open>The confusion tally\<close>

text \<open>
  Modelled from the spec: \<^verbatim>\<open>plot.binary_confusion_matrix\<close> (module \<^verbatim>\<open>mlworkflows\<close>) is not
  among the sources. The spec's tally is four counts over the pairs of an actual and a
  predicted label, relative to the positive label: a true positive is a positive predicted
  positive, a false negative a positive predicted otherwise, a false positive a
  non-positive predicted positive, a true negative a non-positive predicted non-positive.
\<close>

record tally =
  true_positive :: nat
  true_negative :: nat
  false_positive :: nat
  false_negative :: nat

definition count_pairs :: "(string \<times> string \<Rightarrow> bool) \<Rightarrow> string list \<Rightarrow> string list \<Rightarrow> nat" where
  "count_pairs P actual_values predicted_values =
     length (filter P (zip actual_values predicted_values))"

definition confusion_tally :: "string list \<Rightarrow> string list \<Rightarrow> string \<Rightarrow> tally" where
  "confusion_tally actual_values predicted_values positive_label =
     \<lparr> true_positive =
         count_pairs (\<lambda>t. fst t = positive_label \<and> snd t = positive_label)
           actual_values predicted_values,
       true_negative =
         count_pairs (\<lambda>t. fst t \<noteq> positive_label \<and> snd t \<noteq> positive_label)
           actual_values predicted_values,
       false_positive =
         count_pairs (\<lambda>t. fst t \<noteq> positive_label \<and> snd t = positive_label)
           actual_values predicted_values,
       false_negative =
         count_pairs (\<lambda>t. fst t = positive_label \<and> snd t \<noteq> positive_label)
           actual_values predicted_values \<rparr>"

subsection \<open>Accuracy\<close>

text \<open>
  A row of a data frame, as \<^verbatim>\<open>df.itertuples()\<close> yields it: \<^verbatim>\<open>row.label\<close> and
  \<^verbatim>\<open>row.text\<close>.
\<close>

record document =
  label :: string
  doc_text :: string

text \<open>
  The loop of \<^verbatim>\<open>model_accuracy\<close> over the rows, on the two counters. The model is
  used through its \<^verbatim>\<open>predict\<close> method only, which is the argument \<open>predict\<close>.
  \<^verbatim>\<open>
  for row in df.itertuples():
      if row.label == osm.predict(row.text):
          correct += 1
      else:
          incorrect += 1
  \<close>
\<close>

fun count_correct :: "(string \<Rightarrow> string) \<Rightarrow> document list \<Rightarrow> nat \<times> nat \<Rightarrow> nat \<times> nat" where
  "count_correct predict [] (correct, incorrect) = (correct, incorrect)"
| "count_correct predict (row # df) (correct, incorrect) =
     (if label row = predict (doc_text row)
      then count_correct predict df (correct + 1, incorrect)
      else count_correct predict df (correct, incorrect + 1))"

text \<open>
  \<^verbatim>\<open>
  if correct + incorrect == 0:
      return 100
  return (float(correct) / float(correct + incorrect) * 100)
  \<close>
\<close>

definition model_accuracy :: "(string \<Rightarrow> string) \<Rightarrow> document list \<Rightarrow> rat" where
  "model_accuracy predict df =
     (case count_correct predict df (0, 0) of
        (correct, incorrect) \<Rightarrow>
          if correct + incorrect = 0 then 100
          else of_nat correct / of_nat (correct + incorrect) * 100)"

text \<open>
  \<^verbatim>\<open>true_and_predicted\<close>: the labels of a data frame and the model's predictions on its
  texts.
\<close>

definition true_and_predicted :: "document list \<Rightarrow> (string \<Rightarrow> string) \<Rightarrow> string list \<times> string list" where
  "true_and_predicted df predict = (map label df, map (\<lambda>row. predict (doc_text row)) df)"

text \<open>The classifier of the spec's scenario, which predicts every input as spam.\<close>

definition always_spam :: "string \<Rightarrow> string" where
  "always_spam txt = ''spam''"

section \<open>The rule-based classifiers (02-evaluating-models)\<close>

text \<open>
  Both classes hold two sets, \<^verbatim>\<open>self.legit\<close> and \<^verbatim>\<open>self.spam\<close>, empty after
  \<^verbatim>\<open>__init__\<close>: sets of hash values in \<^verbatim>\<open>OverfittingSpamModel\<close>, sets of words in
  \<^verbatim>\<open>SensitiveSpamModel\<close>.
\<close>

record 'a spam_model =
  legit :: "'a set"
  spam :: "'a set"

definition init_model :: "'a spam_model" where
  "init_model = \<lparr> legit = {}, spam = {} \<rparr>"

subsection \<open>\<^verbatim>\<open>OverfittingSpamModel\<close>\<close>

text \<open>
  Python's built-in \<^verbatim>\<open>hash\<close> on strings is seeded per process; it is the parameter
  \<open>hash\<close>.
  \<^verbatim>\<open>
  def fit(self, df):
      for tup in df.itertuples():
          if tup.label == "legitimate":
              self.legit.add(hash(tup.text))
          else:
              self.spam.add(hash(tup.text))
  \<close>
\<close>

fun OverfittingSpamModel_fit :: "(string \<Rightarrow> int) \<Rightarrow> int spam_model \<Rightarrow> document list \<Rightarrow> int spam_model" where
  "OverfittingSpamModel_fit hash self [] = self"
| "OverfittingSpamModel_fit hash self (tup # df) =
     (if label tup = ''legitimate''
      then OverfittingSpamModel_fit hash (self\<lparr>legit := insert (hash (doc_text tup)) (legit self)\<rparr>) df
      else OverfittingSpamModel_fit hash (self\<lparr>spam := insert (hash (doc_text tup)) (spam self)\<rparr>) df)"

text \<open>
  \<^verbatim>\<open>
  def predict(self, text):
      h = hash(text)
      if h in self.legit:
          return "legitimate"
      elif h in self.spam:
          return "spam"
      else:
          return (len(text) % 2 == 0) and "legitimate" or "spam"
  \<close>
  The string \<^verbatim>\<open>"legitimate"\<close> is truthy, so the last expression is a conditional.
\<close>

definition OverfittingSpamModel_predict :: "(string \<Rightarrow> int) \<Rightarrow> int spam_model \<Rightarrow> string \<Rightarrow> string" where
  "OverfittingSpamModel_predict hash self txt =
     (let h = hash txt in
      if h \<in> legit self then ''legitimate''
      else if h \<in> spam self then ''spam''
      else if length txt mod 2 = 0 then ''legitimate'' else ''spam'')"

subsection \<open>Tokens: \<^verbatim>\<open>re.split(r"\W+", text)\<close> and \<^verbatim>\<open>str.lower\<close>\<close>

text \<open>
  On ASCII text the class \<^verbatim>\<open>\w\<close> is the letters, the digits and the underscore, and
  \<^verbatim>\<open>lower\<close> maps \<^verbatim>\<open>A-Z\<close> to \<^verbatim>\<open>a-z\<close>.
\<close>

definition is_word_char :: "char \<Rightarrow> bool" where
  "is_word_char c =
     (let n = (of_char c :: nat) in
      (48 \<le> n \<and> n \<le> 57) \<or> (65 \<le> n \<and> n \<le> 90) \<or> n = 95 \<or> (97 \<le> n \<and> n \<le> 122))"

definition lower_char :: "char \<Rightarrow> char" where
  "lower_char c =
     (let n = (of_char c :: nat) in if 65 \<le> n \<and> n \<le> 90 then char_of (n + 32) else c)"

definition lower :: "string \<Rightarrow> string" where
  "lower word = map lower_char word"

text \<open>
  \<^verbatim>\<open>re.split(r"\W+", text)\<close> cuts the text at every maximal run of non-word characters.
  A run at the start or at the end of the text leaves an empty string there, and the
  empty text gives the one token \<^verbatim>\<open>""\<close>. The scan keeps the token being read in
  \<open>cur\<close>, and \<open>in_sep\<close> says that the last character read was a separator.
\<close>

fun re_split_scan :: "bool \<Rightarrow> string \<Rightarrow> string \<Rightarrow> string list" where
  "re_split_scan in_sep cur [] = [cur]"
| "re_split_scan in_sep cur (c # cs) =
     (if is_word_char c then re_split_scan False (cur @ [c]) cs
      else if in_sep then re_split_scan True cur cs
      else cur # re_split_scan True [] cs)"

definition re_split_nonword :: "string \<Rightarrow> string list" where
  "re_split_nonword txt = re_split_scan False [] txt"

subsection \<open>\<^verbatim>\<open>SensitiveSpamModel\<close>\<close>

text \<open>
  A \<^verbatim>\<open>defaultdict(lambda: 0)\<close> of word counts, as the list of its items in insertion
  order (the order \<^verbatim>\<open>items()\<close> lists them in, which the stable sort below depends on).
  \<^verbatim>\<open>target[k] += 1\<close> adds one to the count of a key it has and appends a new key with
  count one.
\<close>

type_synonym word_counts = "(string \<times> nat) list"

fun increment :: "string \<Rightarrow> word_counts \<Rightarrow> word_counts" where
  "increment k [] = [(k, 1)]"
| "increment k ((k', n) # kvs) =
     (if k' = k then (k', n + 1) # kvs else (k', n) # increment k kvs)"

text \<open>
  \<^verbatim>\<open>
  for word in re.split(r"\W+", tup.text):
      if len(word) > 0:
          target[word.lower()] += 1
  \<close>
\<close>

fun count_words :: "string list \<Rightarrow> word_counts \<Rightarrow> word_counts" where
  "count_words [] target = target"
| "count_words (word # ws) target =
     (if length word > 0 then count_words ws (increment (lower word) target)
      else count_words ws target)"

text \<open>
  \<^verbatim>\<open>
  for tup in df.itertuples():
      target = spam_words
      if tup.label == "legitimate":
          target = legit_words
      for word in ...
  \<close>
\<close>

fun count_documents :: "document list \<Rightarrow> word_counts \<times> word_counts \<Rightarrow> word_counts \<times> word_counts" where
  "count_documents [] (legit_words, spam_words) = (legit_words, spam_words)"
| "count_documents (tup # df) (legit_words, spam_words) =
     (if label tup = ''legitimate''
      then count_documents df (count_words (re_split_nonword (doc_text tup)) legit_words, spam_words)
      else count_documents df (legit_words, count_words (re_split_nonword (doc_text tup)) spam_words))"

text \<open>
  \<^verbatim>\<open>
  for word in set(legit_words.keys()).intersection(set(spam_words.keys())):
      del legit_words[word]
      del spam_words[word]
  \<close>
  Deleting a key leaves the order of the other items as it was.
\<close>

definition remove_common :: "word_counts \<times> word_counts \<Rightarrow> word_counts \<times> word_counts" where
  "remove_common p =
     (case p of (legit_words, spam_words) \<Rightarrow>
        (let common = set (map fst legit_words) \<inter> set (map fst spam_words) in
         (filter (\<lambda>kv. fst kv \<notin> common) legit_words,
          filter (\<lambda>kv. fst kv \<notin> common) spam_words)))"

text \<open>
  \<^verbatim>\<open>sorted(items, key=lambda kv: kv[1], reverse=True)\<close>: by decreasing count, items of
  equal count in their original order (Python's sort is stable, also with
  \<^verbatim>\<open>reverse=True\<close>).
\<close>

definition sorted_by_count_desc :: "word_counts \<Rightarrow> word_counts" where
  "sorted_by_count_desc items = sort_key (\<lambda>kv. - int (snd kv)) items"

text \<open>
  \<^verbatim>\<open>
  top_legit_words = sorted(legit_words.items(), key=lambda kv: kv[1], reverse=True)
  top_spam_words = sorted(spam_words.items(), key=lambda kv: kv[1], reverse=True)
  self.legit = set([t[0] for t in top_legit_words[:100]])
  self.spam = set([t[0] for t in top_spam_words[:1000]])
  \<close>
\<close>

definition SensitiveSpamModel_fit :: "string spam_model \<Rightarrow> document list \<Rightarrow> string spam_model" where
  "SensitiveSpamModel_fit self df =
     (case remove_common (count_documents df ([], [])) of
        (legit_words, spam_words) \<Rightarrow>
          (let top_legit_words = sorted_by_count_desc legit_words;
               top_spam_words = sorted_by_count_desc spam_words
           in self\<lparr> legit := set (map fst (take 100 top_legit_words)),
                    spam := set (map fst (take 1000 top_spam_words)) \<rparr>))"

text \<open>
  \<^verbatim>\<open>
  for word in re.split(r"\W+", text):
      w = word.lower()
      if word in self.legit:
          legit_score = legit_score + 1
      elif word in self.spam:
          spam_score = spam_score + 1
  \<close>
  The loop looks \<^verbatim>\<open>word\<close> up, not \<^verbatim>\<open>w\<close>.
\<close>

fun score_words :: "string spam_model \<Rightarrow> string list \<Rightarrow> nat \<times> nat \<Rightarrow> nat \<times> nat" where
  "score_words self [] (legit_score, spam_score) = (legit_score, spam_score)"
| "score_words self (word # ws) (legit_score, spam_score) =
     (let w = lower word in
      if word \<in> legit self then score_words self ws (legit_score + 1, spam_score)
      else if word \<in> spam self then score_words self ws (legit_score, spam_score + 1)
      else score_words self ws (legit_score, spam_score))"

text \<open>
  \<^verbatim>\<open>return (legit_score > spam_score) and "legitimate" or "spam"\<close>
\<close>

definition SensitiveSpamModel_predict :: "string spam_model \<Rightarrow> string \<Rightarrow> string" where
  "SensitiveSpamModel_predict self txt =
     (case score_words self (re_split_nonword txt) (0, 0) of
        (legit_score, spam_score) \<Rightarrow>
          if legit_score > spam_score then ''legitimate'' else ''spam'')"

text \<open>
  The prediction as the specification words it, for comparison with the source: the
  tokens are lowercased as in \<^verbatim>\<open>fit\<close>, and the label is legitimate exactly when more of
  them are in the legitimate vocabulary than in the spam vocabulary.
\<close>

definition predict_as_specified :: "string spam_model \<Rightarrow> string \<Rightarrow> string" where
  "predict_as_specified self txt =
     (let tokens = map lower (re_split_nonword txt);
          legit_count = length (filter (\<lambda>w. w \<in> legit self) tokens);
          spam_count = length (filter (\<lambda>w. w \<in> spam self) tokens)
      in if legit_count > spam_count then ''legitimate'' else ''spam'')"

section \<open>The hashing frequency encoder\<close>

text \<open>
  An entry of a numpy array of \<^verbatim>\<open>float64\<close>: a finite number, an infinity or
  not-a-number.
\<close>

datatype float64 = Finite rat | PosInf | NegInf | NaN

text \<open>
  \<^verbatim>\<open>result[i] /= total\<close> divides a \<^verbatim>\<open>float64\<close> taken from the array. numpy follows
  IEEE 754 here and raises nothing (it emits a \<^verbatim>\<open>RuntimeWarning\<close>): zero by zero is
  not-a-number, any other number by zero an infinity of its sign.
\<close>

definition np_divide :: "rat \<Rightarrow> rat \<Rightarrow> float64" where
  "np_divide a b =
     (if b = 0 then (if a = 0 then NaN else if 0 < a then PosInf else NegInf)
      else Finite (a / b))"

text \<open>
  The argument \<^verbatim>\<open>words\<close> of \<^verbatim>\<open>hf\<close> is a string or a list of terms; the source tells
  them apart with \<^verbatim>\<open>type(words) is type("")\<close>.
\<close>

datatype words = Str string | Terms "string list"

text \<open>
  \<^verbatim>\<open>words.split(" ")\<close> cuts at every single space: two spaces in a row leave an empty
  string between them, and the empty string gives the one term \<^verbatim>\<open>""\<close>.
\<close>

fun split_scan :: "string \<Rightarrow> string \<Rightarrow> string list" where
  "split_scan cur [] = [cur]"
| "split_scan cur (c # cs) =
     (if c = CHR '' '' then cur # split_scan [] cs else split_scan (cur @ [c]) cs)"

definition split_space :: "string \<Rightarrow> string list" where
  "split_space s = split_scan [] s"

text \<open>
  \<^verbatim>\<open>
  for term in words:
      result[h(term) % vecsize] += 1.0
  \<close>
  The hash \<open>h\<close> returns a Python integer, and \<^verbatim>\<open>%\<close> takes the sign of the divisor, as
  \<^term>\<open>(mod)\<close> on \<^typ>\<open>int\<close> does, so that for a positive \<open>vecsize\<close> the index is within
  the array. For \<open>vecsize = 0\<close> the remainder raises \<^verbatim>\<open>ZeroDivisionError\<close>.
\<close>

fun count_terms :: "int \<Rightarrow> (string \<Rightarrow> int) \<Rightarrow> string list \<Rightarrow> rat list \<Rightarrow> error + rat list" where
  "count_terms vecsize h [] result = Inr result"
| "count_terms vecsize h (w # ws) result =
     (if vecsize = 0 then Inl ZeroDivisionError
      else count_terms vecsize h ws
             (result[nat (h w mod vecsize) := result ! nat (h w mod vecsize) + 1]))"

text \<open>
  \<^verbatim>\<open>
  def hf(words):
      if type(words) is type(""):
          words = words.split(" ")
      result = np.zeros(vecsize)
      for term in words: ...
      total = sum(result)
      for i in range(len(result)):
          result[i] /= total
      return result
  \<close>
  \<^verbatim>\<open>np.zeros\<close> raises \<^verbatim>\<open>ValueError\<close> on a negative size. \<open>hashing_frequency vecsize h\<close>
  is the closure \<^verbatim>\<open>hf\<close> that \<^verbatim>\<open>hashing_frequency(vecsize, h)\<close> returns.
\<close>

definition hashing_frequency :: "int \<Rightarrow> (string \<Rightarrow> int) \<Rightarrow> words \<Rightarrow> error + float64 list" where
  "hashing_frequency vecsize h words =
     (let ws = (case words of Str s \<Rightarrow> split_space s | Terms ts \<Rightarrow> ts) in
      if vecsize < 0 then Inl ValueError
      else
        (case count_terms vecsize h ws (replicate (nat vecsize) 0) of
           Inl e \<Rightarrow> Inl e
         | Inr result \<Rightarrow>
             (let total = sum_list result in
              Inr (map (\<lambda>x. np_divide x total) result))))"

text \<open>A sample hash function, to run the encoder on: the length of the term.\<close>

definition length_hash :: "string \<Rightarrow> int" where
  "length_hash s = int (length s)"

section \<open>Properties of the evaluation metrics\<close>

subsection \<open>The tally and the counts of the score functions\<close>

text \<open>
  The count \<^verbatim>\<open>true_positives\<close> of the source is the tally's true positives, and on
  sequences of equal length the actual positives are the true positives and the false
  negatives together, the predicted positives the true and the false positives.
\<close>

lemma true_positives_tally:
  "true_positives a p l = of_nat (true_positive (confusion_tally a p l))"
  by (auto simp: true_positives_def confusion_tally_def count_pairs_def
           intro!: arg_cong[where f = length] filter_cong)

lemma actual_positives_tally:
  "length a = length p \<Longrightarrow>
     actual_positives a l =
       of_nat (true_positive (confusion_tally a p l) + false_negative (confusion_tally a p l))"
  unfolding actual_positives_def confusion_tally_def count_pairs_def
  by (induction a p rule: list_induct2) auto

lemma predicted_positives_tally:
  "length a = length p \<Longrightarrow>
     predicted_positives p l =
       of_nat (true_positive (confusion_tally a p l) + false_positive (confusion_tally a p l))"
  unfolding predicted_positives_def confusion_tally_def count_pairs_def
  by (induction a p rule: list_induct2) auto

subsection \<open>F1 and F-beta\<close>

text \<open>
  Claim C3. On all label sequences and every positive label, \<^verbatim>\<open>f1_score\<close> is
  \<^verbatim>\<open>fbeta_score\<close> at \<open>beta = 1\<close>: the two return the same number where they are
  defined, and they raise the same error where they are not. This holds for sequences of
  any lengths, so in particular for those of equal length on which predicted positives,
  actual positives and precision plus recall are all nonzero.
\<close>

theorem f1_score_is_fbeta_1:
  "f1_score actual_values predicted_values positive_label =
     fbeta_score actual_values predicted_values 1 positive_label"
  by (simp add: f1_score_def fbeta_score_def split: sum.splits)

theorem f1_score_is_fbeta_1_witness:
  "f1_score [''spam'', ''spam'', ''legitimate''] [''spam'', ''legitimate'', ''spam''] ''spam'' = Inr (1 / 2)
   \<and> fbeta_score [''spam'', ''spam'', ''legitimate''] [''spam'', ''legitimate'', ''spam''] 1 ''spam'' = Inr (1 / 2)"
proof -
  have v: "f1_score [''spam'', ''spam'', ''legitimate''] [''spam'', ''legitimate'', ''spam''] ''spam'' = Inr (1 / 2)"
    by (simp add: f1_score_def precision_def recall_def py_div_def true_positives_def
          predicted_positives_def actual_positives_def)
  show ?thesis
    using v f1_score_is_fbeta_1 [of "[''spam'', ''spam'', ''legitimate'']"
        "[''spam'', ''legitimate'', ''spam'']" "''spam''"]
    by simp
qed

text \<open>
  Claim C4. Whenever no label is predicted positive, or no label is actually positive,
  both \<^verbatim>\<open>f1_score\<close> and \<^verbatim>\<open>fbeta_score\<close> (at every \<open>beta\<close>) end in
  \<^verbatim>\<open>ZeroDivisionError\<close>: the error is the result of the call.
\<close>

theorem scores_raise_without_positives:
  assumes "predicted_positives predicted_values positive_label = 0
           \<or> actual_positives actual_values positive_label = 0"
  shows "f1_score actual_values predicted_values positive_label = Inl ZeroDivisionError
         \<and> fbeta_score actual_values predicted_values beta positive_label = Inl ZeroDivisionError"
  using assms
  by (auto simp: f1_score_def fbeta_score_def precision_def recall_def py_div_def)

theorem scores_raise_without_positives_witness:
  "(predicted_positives [''legitimate'', ''legitimate''] ''spam'' = 0
      \<or> actual_positives [''spam'', ''legitimate''] ''spam'' = 0)
   \<and> f1_score [''spam'', ''legitimate''] [''legitimate'', ''legitimate''] ''spam'' = Inl ZeroDivisionError
   \<and> fbeta_score [''spam'', ''legitimate''] [''legitimate'', ''legitimate''] 2 ''spam'' = Inl ZeroDivisionError"
proof -
  have h: "predicted_positives [''legitimate'', ''legitimate''] ''spam'' = 0
      \<or> actual_positives [''spam'', ''legitimate''] ''spam'' = 0"
    by (simp add: predicted_positives_def)
  show ?thesis
    using h scores_raise_without_positives [OF h, of 2] by simp
qed

text \<open>
  Claim C6. On actual labels spam, spam, legitimate, spam and predicted labels spam,
  legitimate, legitimate, spam, with spam positive: the tally is 2 true positives, 1 false
  negative, 0 false positives and 1 true negative; precision is 1, recall is 2/3 and
  \<^verbatim>\<open>f1_score\<close> returns 4/5.
\<close>

theorem scenario_tally_and_scores:
  "confusion_tally [''spam'', ''spam'', ''legitimate'', ''spam'']
       [''spam'', ''legitimate'', ''legitimate'', ''spam''] ''spam''
     = \<lparr> true_positive = 2, true_negative = 1, false_positive = 0, false_negative = 1 \<rparr>
   \<and> precision [''spam'', ''spam'', ''legitimate'', ''spam'']
       [''spam'', ''legitimate'', ''legitimate'', ''spam''] ''spam'' = Inr 1
   \<and> recall [''spam'', ''spam'', ''legitimate'', ''spam'']
       [''spam'', ''legitimate'', ''legitimate'', ''spam''] ''spam'' = Inr (2 / 3)
   \<and> f1_score [''spam'', ''spam'', ''legitimate'', ''spam'']
       [''spam'', ''legitimate'', ''legitimate'', ''spam''] ''spam'' = Inr (4 / 5)"
  by (simp add: confusion_tally_def count_pairs_def f1_score_def precision_def recall_def
        py_div_def true_positives_def predicted_positives_def actual_positives_def)

subsection \<open>Accuracy\<close>

lemma count_correct_eq:
  "count_correct predict df (c, i) =
     (c + length (filter (\<lambda>row. label row = predict (doc_text row)) df),
      i + length (filter (\<lambda>row. label row \<noteq> predict (doc_text row)) df))"
  by (induction df arbitrary: c i) auto

lemma model_accuracy_eq:
  "model_accuracy predict df =
     (if df = [] then 100
      else of_nat (length (filter (\<lambda>row. label row = predict (doc_text row)) df))
             / of_nat (length df) * 100)"
proof (cases "df = []")
  case True
  then show ?thesis by (simp add: model_accuracy_def)
next
  case False
  define c where "c = length (filter (\<lambda>row. label row = predict (doc_text row)) df)"
  define i where "i = length (filter (\<lambda>row. label row \<noteq> predict (doc_text row)) df)"
  have ci: "c + i = length df"
    unfolding c_def i_def
    using sum_length_filter_compl[of "\<lambda>row. label row = predict (doc_text row)" df] by simp
  have cc: "count_correct predict df (0, 0) = (c, i)"
    by (simp add: count_correct_eq c_def i_def)
  have "model_accuracy predict df = (if c + i = 0 then 100 else of_nat c / of_nat (c + i) * 100)"
    unfolding model_accuracy_def cc by simp
  also have "\<dots> = of_nat c / of_nat (length df) * 100"
    unfolding ci using False by simp
  finally show ?thesis using False by (simp add: c_def)
qed

text \<open>
  With two classes, a row is counted correct exactly when it is a true positive or a true
  negative of the tally.
\<close>

lemma correct_is_tp_tn:
  assumes "\<forall>row\<in>set df. label row \<in> {pos, neg} \<and> predict (doc_text row) \<in> {pos, neg}"
    and "pos \<noteq> neg"
  shows "length (filter (\<lambda>row. label row = predict (doc_text row)) df) =
     true_positive (confusion_tally (map label df) (map (\<lambda>row. predict (doc_text row)) df) pos)
   + true_negative (confusion_tally (map label df) (map (\<lambda>row. predict (doc_text row)) df) pos)"
  using assms unfolding confusion_tally_def count_pairs_def
  by (induction df) auto

lemma filter_replicate_length: "length (filter P (replicate n x)) = (if P x then n else 0)"
  by (induction n) auto

text \<open>
  Claim C5, as stated, fails: \<^verbatim>\<open>model_accuracy\<close> returns a percentage. With one spam and
  one legitimate document and the classifier that always answers spam it returns 50,
  where (true positives + true negatives) / total is 1/2.
\<close>

theorem model_accuracy_is_not_the_fraction:
  "model_accuracy always_spam
     [\<lparr>label = ''spam'', doc_text = ''buy''\<rparr>, \<lparr>label = ''legitimate'', doc_text = ''dear''\<rparr>] = 50
   \<and> true_and_predicted
       [\<lparr>label = ''spam'', doc_text = ''buy''\<rparr>, \<lparr>label = ''legitimate'', doc_text = ''dear''\<rparr>]
       always_spam = ([''spam'', ''legitimate''], [''spam'', ''spam''])
   \<and> rat_of_nat (true_positive (confusion_tally [''spam'', ''legitimate''] [''spam'', ''spam''] ''spam'')
                + true_negative (confusion_tally [''spam'', ''legitimate''] [''spam'', ''spam''] ''spam''))
       / rat_of_nat (length [''spam'', ''legitimate'']) = 1 / 2
   \<and> model_accuracy always_spam
       [\<lparr>label = ''spam'', doc_text = ''buy''\<rparr>, \<lparr>label = ''legitimate'', doc_text = ''dear''\<rparr>]
     \<noteq> rat_of_nat (true_positive (confusion_tally [''spam'', ''legitimate''] [''spam'', ''spam''] ''spam'')
                + true_negative (confusion_tally [''spam'', ''legitimate''] [''spam'', ''spam''] ''spam''))
         / rat_of_nat (length [''spam'', ''legitimate''])"
  by (simp add: model_accuracy_def always_spam_def confusion_tally_def count_pairs_def
        true_and_predicted_def)

text \<open>
  Claim C5, amended. \<^verbatim>\<open>model_accuracy\<close> returns 100 on the empty document set. On a
  non-empty set whose labels and predictions are drawn from two classes it returns the
  percentage 100 * (true positives + true negatives) / total. For the classifier that
  predicts every input as spam, on any set of 18000 spam and 2000 other documents, it
  returns 90.
\<close>

theorem model_accuracy_percentage:
  "model_accuracy predict [] = 100
   \<and> (df \<noteq> [] \<and> pos \<noteq> neg
       \<and> (\<forall>row \<in> set df. label row \<in> {pos, neg} \<and> predict (doc_text row) \<in> {pos, neg})
      \<longrightarrow> model_accuracy predict df =
           of_nat (true_positive (confusion_tally (fst (true_and_predicted df predict))
                                                  (snd (true_and_predicted df predict)) pos)
                 + true_negative (confusion_tally (fst (true_and_predicted df predict))
                                                  (snd (true_and_predicted df predict)) pos))
             / of_nat (length df) * 100)
   \<and> (length (filter (\<lambda>row. label row = ''spam'') df) = 18000
       \<and> length (filter (\<lambda>row. label row \<noteq> ''spam'') df) = 2000
      \<longrightarrow> model_accuracy always_spam df = 90)"
proof (intro conjI impI)
  show "model_accuracy predict [] = 100"
    by (simp add: model_accuracy_eq)
next
  assume a: "df \<noteq> [] \<and> pos \<noteq> neg
       \<and> (\<forall>row \<in> set df. label row \<in> {pos, neg} \<and> predict (doc_text row) \<in> {pos, neg})"
  then show "model_accuracy predict df =
           of_nat (true_positive (confusion_tally (fst (true_and_predicted df predict))
                                                  (snd (true_and_predicted df predict)) pos)
                 + true_negative (confusion_tally (fst (true_and_predicted df predict))
                                                  (snd (true_and_predicted df predict)) pos))
             / of_nat (length df) * 100"
    using correct_is_tp_tn[of df pos neg predict]
    by (simp add: model_accuracy_eq true_and_predicted_def)
next
  assume s: "length (filter (\<lambda>row. label row = ''spam'') df) = 18000
       \<and> length (filter (\<lambda>row. label row \<noteq> ''spam'') df) = 2000"
  have "length df = 20000"
    using s sum_length_filter_compl[of "\<lambda>row. label row = ''spam''" df] by simp
  then show "model_accuracy always_spam df = 90"
    using s by (auto simp add: model_accuracy_eq always_spam_def)
qed

theorem model_accuracy_percentage_witness:
  "replicate 18000 \<lparr>label = ''spam'', doc_text = ''buy''\<rparr>
       @ replicate 2000 \<lparr>label = ''legitimate'', doc_text = ''dear''\<rparr> \<noteq> []
   \<and> ''spam'' \<noteq> ''legitimate''
   \<and> length (filter (\<lambda>row. label row = ''spam'')
        (replicate 18000 \<lparr>label = ''spam'', doc_text = ''buy''\<rparr>
           @ replicate 2000 \<lparr>label = ''legitimate'', doc_text = ''dear''\<rparr>)) = 18000
   \<and> length (filter (\<lambda>row. label row \<noteq> ''spam'')
        (replicate 18000 \<lparr>label = ''spam'', doc_text = ''buy''\<rparr>
           @ replicate 2000 \<lparr>label = ''legitimate'', doc_text = ''dear''\<rparr>)) = 2000
   \<and> true_positive (confusion_tally
        (fst (true_and_predicted (replicate 18000 \<lparr>label = ''spam'', doc_text = ''buy''\<rparr>
           @ replicate 2000 \<lparr>label = ''legitimate'', doc_text = ''dear''\<rparr>) always_spam))
        (snd (true_and_predicted (replicate 18000 \<lparr>label = ''spam'', doc_text = ''buy''\<rparr>
           @ replicate 2000 \<lparr>label = ''legitimate'', doc_text = ''dear''\<rparr>) always_spam)) ''spam'') = 18000
   \<and> true_negative (confusion_tally
        (fst (true_and_predicted (replicate 18000 \<lparr>label = ''spam'', doc_text = ''buy''\<rparr>
           @ replicate 2000 \<lparr>label = ''legitimate'', doc_text = ''dear''\<rparr>) always_spam))
        (snd (true_and_predicted (replicate 18000 \<lparr>label = ''spam'', doc_text = ''buy''\<rparr>
           @ replicate 2000 \<lparr>label = ''legitimate'', doc_text = ''dear''\<rparr>) always_spam)) ''spam'') = 0
   \<and> model_accuracy always_spam
        (replicate 18000 \<lparr>label = ''spam'', doc_text = ''buy''\<rparr>
           @ replicate 2000 \<lparr>label = ''legitimate'', doc_text = ''dear''\<rparr>) = 90"
  using model_accuracy_percentage [of always_spam
      "replicate 18000 \<lparr>label = ''spam'', doc_text = ''buy''\<rparr>
         @ replicate 2000 \<lparr>label = ''legitimate'', doc_text = ''dear''\<rparr>"
      "''spam''" "''legitimate''"]
  by (simp add: filter_replicate_length always_spam_def true_and_predicted_def
        confusion_tally_def count_pairs_def)

section \<open>Properties of the rule-based classifiers\<close>

subsection \<open>\<^verbatim>\<open>OverfittingSpamModel\<close>\<close>

text \<open>\<^verbatim>\<open>fit\<close> adds the hashes of the training texts to the two sets, by label.\<close>

lemma OverfittingSpamModel_fit_legit:
  "legit (OverfittingSpamModel_fit hash self df) =
     legit self \<union> hash ` doc_text ` {tup \<in> set df. label tup = ''legitimate''}"
  by (induction df arbitrary: self) auto

lemma OverfittingSpamModel_fit_spam:
  "spam (OverfittingSpamModel_fit hash self df) =
     spam self \<union> hash ` doc_text ` {tup \<in> set df. label tup \<noteq> ''legitimate''}"
  by (induction df arbitrary: self) auto

text \<open>
  Claim C7. A freshly fitted model stores the hashes of the legitimate training texts in
  one set and those of all other training texts in the other. On every model state and
  every text, \<^verbatim>\<open>predict\<close> answers legitimate if the hash of the text is in the stored
  legitimate set, otherwise spam if it is in the stored spam set, and otherwise
  legitimate exactly when the number of characters of the text is even.
\<close>

theorem OverfittingSpamModel_predict_cases:
  "legit (OverfittingSpamModel_fit hash init_model df) =
      hash ` doc_text ` {tup \<in> set df. label tup = ''legitimate''}
   \<and> spam (OverfittingSpamModel_fit hash init_model df) =
      hash ` doc_text ` {tup \<in> set df. label tup \<noteq> ''legitimate''}
   \<and> OverfittingSpamModel_predict hash self txt =
       (if hash txt \<in> legit self then ''legitimate''
        else if hash txt \<in> spam self then ''spam''
        else if even (length txt) then ''legitimate'' else ''spam'')"
  by (simp add: OverfittingSpamModel_fit_legit OverfittingSpamModel_fit_spam init_model_def
        OverfittingSpamModel_predict_def Let_def even_iff_mod_2_eq_zero)

theorem OverfittingSpamModel_predict_cases_witness:
  "OverfittingSpamModel_predict length_hash
     (OverfittingSpamModel_fit length_hash init_model
        [\<lparr>label = ''legitimate'', doc_text = ''abc''\<rparr>, \<lparr>label = ''spam'', doc_text = ''abcd''\<rparr>])
     ''xyz'' = ''legitimate''
   \<and> OverfittingSpamModel_predict length_hash
     (OverfittingSpamModel_fit length_hash init_model
        [\<lparr>label = ''legitimate'', doc_text = ''abc''\<rparr>, \<lparr>label = ''spam'', doc_text = ''abcd''\<rparr>])
     ''wxyz'' = ''spam''
   \<and> OverfittingSpamModel_predict length_hash
     (OverfittingSpamModel_fit length_hash init_model
        [\<lparr>label = ''legitimate'', doc_text = ''abc''\<rparr>, \<lparr>label = ''spam'', doc_text = ''abcd''\<rparr>])
     ''vwxyz'' = ''spam''
   \<and> OverfittingSpamModel_predict length_hash
     (OverfittingSpamModel_fit length_hash init_model
        [\<lparr>label = ''legitimate'', doc_text = ''abc''\<rparr>, \<lparr>label = ''spam'', doc_text = ''abcd''\<rparr>])
     ''uvwxyz'' = ''legitimate''"
  using OverfittingSpamModel_predict_cases [of length_hash "[]"
      "OverfittingSpamModel_fit length_hash init_model
        [\<lparr>label = ''legitimate'', doc_text = ''abc''\<rparr>, \<lparr>label = ''spam'', doc_text = ''abcd''\<rparr>]"
      "''xyz''", THEN conjunct2, THEN conjunct2]
  by (simp add: OverfittingSpamModel_predict_def length_hash_def init_model_def)

subsection \<open>\<^verbatim>\<open>SensitiveSpamModel\<close>\<close>

text \<open>
  What the loop of \<^verbatim>\<open>predict\<close> counts: the tokens as they are in the text, those in the
  legitimate vocabulary on one side, those in the spam vocabulary only on the other.
\<close>

lemma score_words_eq:
  "score_words self ws (ls, ss) =
     (ls + length (filter (\<lambda>w. w \<in> legit self) ws),
      ss + length (filter (\<lambda>w. w \<notin> legit self \<and> w \<in> spam self) ws))"
  by (induction ws arbitrary: ls ss) (auto simp: Let_def)

lemma SensitiveSpamModel_predict_eq:
  "SensitiveSpamModel_predict self txt =
     (if length (filter (\<lambda>w. w \<in> legit self) (re_split_nonword txt))
           > length (filter (\<lambda>w. w \<notin> legit self \<and> w \<in> spam self) (re_split_nonword txt))
      then ''legitimate'' else ''spam'')"
  by (simp add: SensitiveSpamModel_predict_def score_words_eq)

text \<open>
  Claim C8 fails on the source. \<^verbatim>\<open>predict\<close> computes the lowercased token \<^verbatim>\<open>w\<close> and
  then looks the token \<^verbatim>\<open>word\<close> up as it stands in the text, whereas \<^verbatim>\<open>fit\<close> stores
  lowercased words. After fitting on the legitimate text \<^verbatim>\<open>Dear Emma\<close> and the spam text
  \<^verbatim>\<open>tasty snack\<close>, the vocabularies are \<open>{dear, emma}\<close> and \<open>{tasty, snack}\<close>; on the
  text \<^verbatim>\<open>Dear Emma\<close> the source finds no token in either and answers spam, where the
  prediction as specified finds two legitimate words and answers legitimate.
\<close>

theorem SensitiveSpamModel_predict_skips_lowercase:
  "SensitiveSpamModel_fit init_model
       [\<lparr>label = ''legitimate'', doc_text = ''Dear Emma''\<rparr>,
        \<lparr>label = ''spam'', doc_text = ''tasty snack''\<rparr>]
     = \<lparr> legit = {''dear'', ''emma''}, spam = {''tasty'', ''snack''} \<rparr>
   \<and> SensitiveSpamModel_predict
       (SensitiveSpamModel_fit init_model
          [\<lparr>label = ''legitimate'', doc_text = ''Dear Emma''\<rparr>,
           \<lparr>label = ''spam'', doc_text = ''tasty snack''\<rparr>])
       ''Dear Emma'' = ''spam''
   \<and> predict_as_specified
       (SensitiveSpamModel_fit init_model
          [\<lparr>label = ''legitimate'', doc_text = ''Dear Emma''\<rparr>,
           \<lparr>label = ''spam'', doc_text = ''tasty snack''\<rparr>])
       ''Dear Emma'' = ''legitimate''"
  by code_simp

text \<open>
  After \<^verbatim>\<open>remove_common\<close> the keys of each dictionary are its former keys without those
  of the other, and the words kept are keys of the dictionary they are taken from.
\<close>

lemma remove_common_keys:
  assumes "remove_common (lw, sw) = (lw', sw')"
  shows "set (map fst lw') = set (map fst lw) - set (map fst sw)
         \<and> set (map fst sw') = set (map fst sw) - set (map fst lw)"
proof -
  from assms
  have l: "lw' = filter (\<lambda>kv. fst kv \<notin> set (map fst lw) \<inter> set (map fst sw)) lw"
    and s: "sw' = filter (\<lambda>kv. fst kv \<notin> set (map fst lw) \<inter> set (map fst sw)) sw"
    by (simp_all add: remove_common_def Let_def)
  have "set (map fst lw') = set (map fst lw) - set (map fst sw)"
    unfolding l by force
  moreover have "set (map fst sw') = set (map fst sw) - set (map fst lw)"
    unfolding s by force
  ultimately show ?thesis by simp
qed

lemma top_words_subset:
  "set (map fst (take n (sorted_by_count_desc kvs))) \<subseteq> set (map fst kvs)"
proof -
  have "set (take n (sorted_by_count_desc kvs)) \<subseteq> set (sorted_by_count_desc kvs)"
    by (rule set_take_subset)
  then show ?thesis by (auto simp: sorted_by_count_desc_def)
qed

lemma top_words_card: "card (set (map fst (take n kvs))) \<le> n"
proof -
  have "card (set (map fst (take n kvs))) \<le> length (map fst (take n kvs))"
    by (rule card_length)
  then show ?thesis by simp
qed

text \<open>
  Claim C9. After \<^verbatim>\<open>fit\<close> on any training set the legitimate and the spam vocabulary
  are disjoint; no word of the legitimate vocabulary was counted in a spam document and
  no word of the spam vocabulary in a legitimate one; the legitimate vocabulary has at
  most 100 words and the spam vocabulary at most 1000. \<^verbatim>\<open>predict\<close> only reads the two
  sets: it is a function of the model state that returns the label alone.
\<close>

theorem SensitiveSpamModel_fit_vocabularies:
  "legit (SensitiveSpamModel_fit self df) \<inter> spam (SensitiveSpamModel_fit self df) = {}
   \<and> legit (SensitiveSpamModel_fit self df)
       \<inter> set (map fst (snd (count_documents df ([], [])))) = {}
   \<and> spam (SensitiveSpamModel_fit self df)
       \<inter> set (map fst (fst (count_documents df ([], [])))) = {}
   \<and> card (legit (SensitiveSpamModel_fit self df)) \<le> 100
   \<and> card (spam (SensitiveSpamModel_fit self df)) \<le> 1000"
proof -
  obtain lw sw where c: "count_documents df ([], []) = (lw, sw)"
    by (cases "count_documents df ([], [])")
  obtain lw' sw' where r: "remove_common (lw, sw) = (lw', sw')"
    by (cases "remove_common (lw, sw)")
  have l: "legit (SensitiveSpamModel_fit self df) = set (map fst (take 100 (sorted_by_count_desc lw')))"
    and s: "spam (SensitiveSpamModel_fit self df) = set (map fst (take 1000 (sorted_by_count_desc sw')))"
    by (simp_all add: SensitiveSpamModel_fit_def c r)
  have ls: "legit (SensitiveSpamModel_fit self df) \<subseteq> set (map fst lw) - set (map fst sw)"
    using top_words_subset[of 100 lw'] remove_common_keys[OF r] l by simp
  have ss: "spam (SensitiveSpamModel_fit self df) \<subseteq> set (map fst sw) - set (map fst lw)"
    using top_words_subset[of 1000 sw'] remove_common_keys[OF r] s by simp
  have 1: "legit (SensitiveSpamModel_fit self df) \<inter> spam (SensitiveSpamModel_fit self df) = {}"
    using ls ss by blast
  have 2: "legit (SensitiveSpamModel_fit self df)
             \<inter> set (map fst (snd (count_documents df ([], [])))) = {}"
    using ls c by auto
  have 3: "spam (SensitiveSpamModel_fit self df)
             \<inter> set (map fst (fst (count_documents df ([], [])))) = {}"
    using ss c by auto
  have 4: "card (legit (SensitiveSpamModel_fit self df)) \<le> 100"
    unfolding l by (rule top_words_card)
  have 5: "card (spam (SensitiveSpamModel_fit self df)) \<le> 1000"
    unfolding s by (rule top_words_card)
  from 1 2 3 4 5 show ?thesis by blast
qed

theorem SensitiveSpamModel_fit_vocabularies_witness:
  "SensitiveSpamModel_fit init_model
       [\<lparr>label = ''legitimate'', doc_text = ''Dear Emma, dear friend''\<rparr>,
        \<lparr>label = ''spam'', doc_text = ''Tasty snack, dear''\<rparr>]
     = \<lparr> legit = {''emma'', ''friend''}, spam = {''tasty'', ''snack''} \<rparr>
   \<and> legit (SensitiveSpamModel_fit init_model
       [\<lparr>label = ''legitimate'', doc_text = ''Dear Emma, dear friend''\<rparr>,
        \<lparr>label = ''spam'', doc_text = ''Tasty snack, dear''\<rparr>])
     \<inter> spam (SensitiveSpamModel_fit init_model
       [\<lparr>label = ''legitimate'', doc_text = ''Dear Emma, dear friend''\<rparr>,
        \<lparr>label = ''spam'', doc_text = ''Tasty snack, dear''\<rparr>]) = {}"
proof -
  have v: "SensitiveSpamModel_fit init_model
       [\<lparr>label = ''legitimate'', doc_text = ''Dear Emma, dear friend''\<rparr>,
        \<lparr>label = ''spam'', doc_text = ''Tasty snack, dear''\<rparr>]
     = \<lparr> legit = {''emma'', ''friend''}, spam = {''tasty'', ''snack''} \<rparr>"
    by code_simp
  from SensitiveSpamModel_fit_vocabularies [of init_model
       "[\<lparr>label = ''legitimate'', doc_text = ''Dear Emma, dear friend''\<rparr>,
         \<lparr>label = ''spam'', doc_text = ''Tasty snack, dear''\<rparr>]"]
  have d: "legit (SensitiveSpamModel_fit init_model
       [\<lparr>label = ''legitimate'', doc_text = ''Dear Emma, dear friend''\<rparr>,
        \<lparr>label = ''spam'', doc_text = ''Tasty snack, dear''\<rparr>])
     \<inter> spam (SensitiveSpamModel_fit init_model
       [\<lparr>label = ''legitimate'', doc_text = ''Dear Emma, dear friend''\<rparr>,
        \<lparr>label = ''spam'', doc_text = ''Tasty snack, dear''\<rparr>]) = {}"
    by (rule conjunct1)
  from v d show ?thesis by (rule conjI)
qed

section \<open>Properties of the hashing frequency encoder\<close>

subsection \<open>The counting loop\<close>

text \<open>
  For a positive size the loop raises nothing and keeps the length of the array; entry
  \<open>i\<close> grows by the number of terms whose hash is \<open>i\<close> modulo the size.
\<close>

lemma count_terms_buckets:
  assumes "0 < N" and "length r = nat N"
  shows "\<exists>r'. count_terms N h ws r = Inr r' \<and> length r' = nat N \<and>
     (\<forall>i < nat N. r' ! i = r ! i + of_nat (length (filter (\<lambda>t. h t mod N = int i) ws)))"
  using assms
proof (induction ws arbitrary: r)
  case Nil
  then show ?case by simp
next
  case (Cons w ws)
  let ?k = "nat (h w mod N)"
  let ?r1 = "r[?k := r ! ?k + 1]"
  have k: "?k < nat N"
    using Cons.prems(1) by (simp add: nat_less_iff)
  have len: "length ?r1 = nat N"
    using Cons.prems by simp
  from Cons.IH[OF Cons.prems(1) len] obtain r' where
    r': "count_terms N h ws ?r1 = Inr r'" "length r' = nat N"
       "\<forall>i < nat N. r' ! i = ?r1 ! i + of_nat (length (filter (\<lambda>t. h t mod N = int i) ws))"
    by blast
  have "\<forall>i < nat N. r' ! i = r ! i + of_nat (length (filter (\<lambda>t. h t mod N = int i) (w # ws)))"
  proof (intro allI impI)
    fix i
    assume i: "i < nat N"
    have hk: "(h w mod N = int i) = (?k = i)"
      using Cons.prems(1) by (metis nat_int int_nat_eq pos_mod_sign)
    show "r' ! i = r ! i + of_nat (length (filter (\<lambda>t. h t mod N = int i) (w # ws)))"
      using r'(3) i k Cons.prems(2) hk by (auto simp: nth_list_update)
  qed
  with r' Cons.prems show ?case by simp
qed

lemma sum_list_zeros: "sum_list (replicate n (0::rat)) = 0"
  by (induction n) auto

lemma sum_list_bump:
  fixes r :: "rat list"
  shows "k < length r \<Longrightarrow> sum_list (r[k := r ! k + 1]) = sum_list r + 1"
  by (induction r arbitrary: k) (auto split: nat.splits)

lemma count_terms_total:
  assumes "0 < N" and "length r = nat N" and "count_terms N h ws r = Inr r'"
  shows "sum_list r' = sum_list r + of_nat (length ws)"
  using assms
proof (induction ws arbitrary: r)
  case Nil
  then show ?case by simp
next
  case (Cons w ws)
  let ?k = "nat (h w mod N)"
  have k: "?k < length r"
    using Cons.prems(1,2) by (simp add: nat_less_iff)
  have "sum_list r' = sum_list (r[?k := r ! ?k + 1]) + of_nat (length ws)"
    using Cons.prems by (intro Cons.IH) auto
  then show ?case
    using sum_list_bump[OF k] by simp
qed

lemma sum_list_divide:
  fixes r :: "rat list"
  shows "sum_list (map (\<lambda>x. x / t) r) = sum_list r / t"
  by (induction r) (auto simp: add_divide_distrib)

lemma split_scan_not_empty: "split_scan cur s \<noteq> []"
  by (induction s arbitrary: cur) auto

subsection \<open>The normalized histogram\<close>

text \<open>
  Claim C1. For every non-empty list of terms, every size \<open>N > 0\<close> and every hash
  function \<open>h\<close>, the encoder returns a vector of finite numbers with exactly \<open>N\<close>
  entries, each non-negative, that sum to 1; entry \<open>i\<close> is the number of terms \<open>t\<close>
  with \<open>h t mod N = i\<close>, divided by the number of terms.
\<close>

theorem hashing_frequency_normalized:
  assumes "ws \<noteq> []" and "0 < N"
  shows "\<exists>v. hashing_frequency N h (Terms ws) = Inr (map Finite v)
     \<and> length v = nat N
     \<and> (\<forall>x \<in> set v. 0 \<le> x)
     \<and> sum_list v = 1
     \<and> (\<forall>i < nat N. v ! i = of_nat (length (filter (\<lambda>t. h t mod N = int i) ws))
                                / of_nat (length ws))"
proof -
  let ?z = "replicate (nat N) (0::rat)"
  from count_terms_buckets[OF assms(2), of ?z h ws] obtain r where
    r: "count_terms N h ws ?z = Inr r" "length r = nat N"
       "\<forall>i < nat N. r ! i = ?z ! i + of_nat (length (filter (\<lambda>t. h t mod N = int i) ws))"
    by auto
  have tot: "sum_list r = of_nat (length ws)"
    using count_terms_total[OF assms(2) _ r(1)] by (simp add: sum_list_zeros)
  have pos: "sum_list r \<noteq> 0"
    using tot assms(1) by simp
  let ?v = "map (\<lambda>x. x / sum_list r) r"
  have ri: "\<And>i. i < nat N \<Longrightarrow> r ! i = of_nat (length (filter (\<lambda>t. h t mod N = int i) ws))"
    using r(3) by simp
  have 1: "hashing_frequency N h (Terms ws) = Inr (map Finite ?v)"
    using assms(2) r(1) pos by (simp add: hashing_frequency_def np_divide_def)
  have 2: "length ?v = nat N"
    using r(2) by simp
  have 3: "\<forall>x \<in> set ?v. 0 \<le> x"
  proof
    fix x
    assume "x \<in> set ?v"
    then obtain i where "i < nat N" "x = r ! i / sum_list r"
      using r(2) by (auto simp: in_set_conv_nth)
    then show "0 \<le> x"
      using ri tot by simp
  qed
  have 4: "sum_list ?v = 1"
    using pos by (simp add: sum_list_divide)
  have 5: "\<forall>i < nat N. ?v ! i = of_nat (length (filter (\<lambda>t. h t mod N = int i) ws))
                                  / of_nat (length ws)"
    using ri r(2) tot by simp
  from 1 2 3 4 5 show ?thesis by blast
qed

theorem hashing_frequency_normalized_witness:
  "[''ab'', ''c'', ''de''] \<noteq> [] \<and> (0::int) < 2
   \<and> hashing_frequency 2 length_hash (Terms [''ab'', ''c'', ''de''])
       = Inr [Finite (2 / 3), Finite (1 / 3)]"
  using hashing_frequency_normalized [of "[''ab'', ''c'', ''de'']" 2 length_hash]
  by (simp add: hashing_frequency_def length_hash_def np_divide_def numeral_2_eq_2)

subsection \<open>The empty list of terms\<close>

text \<open>
  Claim C2, as stated, fails: on the empty list of terms the call raises nothing. With
  size 3 the total is 0 and each of the three entries is 0 divided by 0 in numpy's
  arithmetic, which is not-a-number; with size 0 the normalization loop has nothing to
  divide and the empty vector comes back.
\<close>

theorem hashing_frequency_empty_is_no_fault:
  "hashing_frequency 3 length_hash (Terms []) = Inr [NaN, NaN, NaN]
   \<and> hashing_frequency 0 length_hash (Terms []) = Inr []
   \<and> hashing_frequency 3 length_hash (Terms []) \<noteq> Inl ZeroDivisionError
   \<and> hashing_frequency 0 length_hash (Terms []) \<noteq> Inl ZeroDivisionError"
  by (simp add: hashing_frequency_def np_divide_def numeral_3_eq_3)

text \<open>
  Claim C2, amended. For the empty list of terms, every size \<open>N \<ge> 0\<close> and every hash
  function, the normalization divides 0 by 0 in each of the \<open>N\<close> entries; no error is
  raised, and the call returns the vector of \<open>N\<close> entries that are all not-a-number (the
  empty vector for \<open>N = 0\<close>).
\<close>

theorem hashing_frequency_empty_terms:
  assumes "0 \<le> N"
  shows "hashing_frequency N h (Terms []) = Inr (replicate (nat N) NaN)"
  using assms by (simp add: hashing_frequency_def np_divide_def sum_list_zeros)

theorem hashing_frequency_empty_terms_witness:
  "(0::int) \<le> 2 \<and> hashing_frequency 2 length_hash (Terms []) = Inr [NaN, NaN]"
  using hashing_frequency_empty_terms [of 2 length_hash]
  by (simp add: numeral_2_eq_2)

subsection \<open>A string in place of the list of terms\<close>

text \<open>
  What \<^verbatim>\<open>words.split(" ")\<close> returns: no piece holds a space, the pieces joined by single
  spaces are the string again (here: each piece followed by a space gives the string
  followed by a space), and there is one piece more than the string has spaces. The
  first two facts determine the list of pieces.
\<close>

lemma split_scan_no_space:
  "CHR '' '' \<notin> set cur \<Longrightarrow> p \<in> set (split_scan cur s) \<Longrightarrow> CHR '' '' \<notin> set p"
proof (induction s arbitrary: cur)
  case Nil
  then show ?case by simp
next
  case (Cons c cs)
  show ?case
  proof (cases "c = CHR '' ''")
    case True
    with Cons.prems have "p = cur \<or> p \<in> set (split_scan [] cs)" by simp
    then show ?thesis
    proof
      assume "p = cur"
      with Cons.prems(1) show ?thesis by simp
    next
      assume "p \<in> set (split_scan [] cs)"
      then show ?thesis using Cons.IH[of "[]"] by simp
    qed
  next
    case False
    with Cons.prems have "p \<in> set (split_scan (cur @ [c]) cs)" by simp
    moreover have "CHR '' '' \<notin> set (cur @ [c])" using False Cons.prems(1) by auto
    ultimately show ?thesis using Cons.IH[of "cur @ [c]"] by blast
  qed
qed

lemma split_scan_join:
  "concat (map (\<lambda>p. p @ '' '') (split_scan cur s)) = cur @ s @ '' ''"
  by (induction s arbitrary: cur) auto

lemma split_scan_length:
  "length (split_scan cur s) = Suc (length (filter (\<lambda>c. c = CHR '' '') s))"
  by (induction s arbitrary: cur) auto

lemma hashing_frequency_terms_finite:
  assumes "ws \<noteq> []" and "0 < N"
  shows "\<exists>v. hashing_frequency N h (Terms ws) = Inr (map Finite v)
           \<and> length v = nat N \<and> sum_list v = 1"
proof -
  let ?z = "replicate (nat N) (0::rat)"
  from count_terms_buckets[OF assms(2), of ?z h ws] obtain r where
    r: "count_terms N h ws ?z = Inr r" "length r = nat N"
    by auto
  have tot: "sum_list r = of_nat (length ws)"
    using count_terms_total[OF assms(2) _ r(1)] by (simp add: sum_list_zeros)
  have pos: "sum_list r \<noteq> 0"
    using tot assms(1) by simp
  let ?v = "map (\<lambda>x. x / sum_list r) r"
  have "hashing_frequency N h (Terms ws) = Inr (map Finite ?v)"
    using assms(2) r(1) pos by (simp add: hashing_frequency_def np_divide_def)
  moreover have "length ?v = nat N"
    using r(2) by simp
  moreover have "sum_list ?v = 1"
    using pos by (simp add: sum_list_divide)
  ultimately show ?thesis by blast
qed

lemma hashing_frequency_Str:
  "hashing_frequency N h (Str s) = hashing_frequency N h (Terms (split_space s))"
  by (simp add: hashing_frequency_def)

text \<open>
  Claim C10, as stated, fails for the size 0: the empty string splits into the one term
  \<^verbatim>\<open>""\<close>, and the index \<^verbatim>\<open>h("") % 0\<close> of its bucket raises \<^verbatim>\<open>ZeroDivisionError\<close>, so
  no vector is returned.
\<close>

theorem hashing_frequency_empty_string_size_zero:
  "hashing_frequency 0 length_hash (Str '''') = Inl ZeroDivisionError"
  by (simp add: hashing_frequency_def split_space_def)

text \<open>
  Claim C10, amended. Given a string, the encoder works on the pieces of the string
  between single spaces: no piece holds a space, the pieces joined by single spaces give
  the string back, and there is one piece more than there are spaces. The empty string
  splits into the one term \<^verbatim>\<open>""\<close>, and no string splits into the empty list. So for
  every size \<open>N > 0\<close> a string never reaches the division of 0 by 0: the result is a
  vector of \<open>N\<close> finite entries that sum to 1, and for the empty string it has 1 in
  bucket \<open>h "" mod N\<close> and 0 elsewhere. For the size 0 every string, the empty one
  included, ends in \<^verbatim>\<open>ZeroDivisionError\<close>, raised by the remainder that computes the
  bucket of the first piece.
\<close>

theorem hashing_frequency_empty_string:
  "split_space '''' = ['''']
   \<and> (\<forall>p \<in> set (split_space s). CHR '' '' \<notin> set p)
   \<and> concat (map (\<lambda>p. p @ '' '') (split_space s)) = s @ '' ''
   \<and> length (split_space s) = Suc (length (filter (\<lambda>c. c = CHR '' '') s))
   \<and> hashing_frequency N h (Str s) = hashing_frequency N h (Terms (split_space s))
   \<and> (0 < N \<longrightarrow>
        (\<exists>v. hashing_frequency N h (Str s) = Inr (map Finite v)
             \<and> length v = nat N \<and> sum_list v = 1))
   \<and> (0 < N \<longrightarrow>
        hashing_frequency N h (Str '''') =
          Inr (map Finite ((replicate (nat N) 0)[nat (h '''' mod N) := 1])))
   \<and> hashing_frequency 0 h (Str s) = Inl ZeroDivisionError"
proof (intro conjI impI ballI)
  show "split_space '''' = ['''']"
    by (simp add: split_space_def)
next
  fix p
  assume "p \<in> set (split_space s)"
  then show "CHR '' '' \<notin> set p"
    using split_scan_no_space[of "[]" p s] by (simp add: split_space_def)
next
  show "concat (map (\<lambda>p. p @ '' '') (split_space s)) = s @ '' ''"
    using split_scan_join[of "[]" s] by (simp add: split_space_def)
next
  show "length (split_space s) = Suc (length (filter (\<lambda>c. c = CHR '' '') s))"
    by (simp add: split_space_def split_scan_length)
next
  show "hashing_frequency N h (Str s) = hashing_frequency N h (Terms (split_space s))"
    by (rule hashing_frequency_Str)
next
  assume n: "0 < N"
  have "split_space s \<noteq> []"
    by (simp add: split_space_def split_scan_not_empty)
  from hashing_frequency_terms_finite[OF this n, of h]
  show "\<exists>v. hashing_frequency N h (Str s) = Inr (map Finite v)
             \<and> length v = nat N \<and> sum_list v = 1"
    by (simp add: hashing_frequency_Str)
next
  assume n: "0 < N"
  have k: "nat (h '''' mod N) < nat N"
    using n by (simp add: nat_less_iff)
  have s: "sum_list ((replicate (nat N) (0::rat))[nat (h '''' mod N) := 1]) = 1"
    using sum_list_bump[of "nat (h '''' mod N)" "replicate (nat N) 0"] k
    by (simp add: sum_list_zeros)
  show "hashing_frequency N h (Str '''') =
          Inr (map Finite ((replicate (nat N) 0)[nat (h '''' mod N) := 1]))"
    using n k s
    by (simp add: split_space_def hashing_frequency_def np_divide_def)
next
  obtain w ws where "split_space s = w # ws"
    using split_scan_not_empty[of "[]" s] by (cases "split_space s") (auto simp: split_space_def)
  then show "hashing_frequency 0 h (Str s) = Inl ZeroDivisionError"
    by (simp add: hashing_frequency_def)
qed

theorem hashing_frequency_empty_string_witness:
  "(0::int) < 4
   \<and> split_space ''ab  c '' = [''ab'', '''', ''c'', '''']
   \<and> hashing_frequency 4 length_hash (Str '''') = Inr [Finite 1, Finite 0, Finite 0, Finite 0]
   \<and> hashing_frequency 4 length_hash (Str ''ab c'')
       = Inr [Finite 0, Finite (1 / 2), Finite (1 / 2), Finite 0]
   \<and> hashing_frequency 0 length_hash (Str '''') = Inl ZeroDivisionError"
proof -
  have p: "(0::int) < 4" by simp
  note t = hashing_frequency_empty_string [of "''''" 4 length_hash]
  from t p have e: "hashing_frequency 4 length_hash (Str '''') =
         Inr (map Finite ((replicate (nat 4) 0)[nat (length_hash '''' mod 4) := 1]))"
    by blast
  from t have z: "hashing_frequency 0 length_hash (Str '''') = Inl ZeroDivisionError"
    by blast
  have a: "split_space ''ab  c '' = [''ab'', '''', ''c'', '''']"
    by (simp add: split_space_def)
  have b: "hashing_frequency 4 length_hash (Str ''ab c'')
       = Inr [Finite 0, Finite (1 / 2), Finite (1 / 2), Finite 0]"
    by (simp add: hashing_frequency_def split_space_def length_hash_def np_divide_def numeral_eq_Suc)
  from e have e': "hashing_frequency 4 length_hash (Str '''') = Inr [Finite 1, Finite 0, Finite 0, Finite 0]"
    by (simp add: length_hash_def numeral_eq_Suc)
  from p a e' b z show ?thesis by blast
qed

end
